theory Spec2Isabelle
  imports Complex_Main "HOL-Library.Char_ord" "HOL-Library.List_Lexorder"
begin

section \<open>JavaScript values\<close>

text \<open>
  The values of the properties of a request body that \<^verbatim>\<open>express.json()\<close> hands to
  the route handlers of \<^verbatim>\<open>server.js\<close>, and the values the handlers keep in memory:
  the JSON scalars, and the JavaScript values that JSON cannot carry but the handlers
  can meet or produce (\<^verbatim>\<open>undefined\<close> for a property the body does not have,
  \<^verbatim>\<open>NaN\<close> and the infinities from \<^verbatim>\<open>parseFloat\<close>). Finite numbers are
  idealised as reals: no rounding, no overflow, no negative zero. A property whose
  value is an array or an object is outside the model: the client sends scalars only.
\<close>

datatype jsval =
    JUndefined
  | JNull
  | JBool bool
  | JNum real
  | JNaN
  | JInfinity
  | JNegInfinity
  | JStr string

text \<open>\<^verbatim>\<open>!v\<close>: the falsy values of JavaScript.\<close>

fun falsy :: "jsval \<Rightarrow> bool" where
  "falsy JUndefined = True"
| "falsy JNull = True"
| "falsy (JBool b) = (\<not> b)"
| "falsy (JNum r) = (r = 0)"
| "falsy JNaN = True"
| "falsy JInfinity = False"
| "falsy JNegInfinity = False"
| "falsy (JStr s) = (s = [])"

subsection \<open>parseFloat\<close>

text \<open>
  \<^verbatim>\<open>parseFloat(v)\<close> converts \<open>v\<close> to a string, skips leading white space
  (here the white space of ASCII: tab, line feed, vertical tab, form feed, carriage
  return, space) and
  reads the longest prefix that is a decimal literal: an optional sign, then
  \<^verbatim>\<open>Infinity\<close> or digits with an optional fraction and an optional exponent.
  It is \<^verbatim>\<open>NaN\<close> when there is no such prefix. A number converts to a string that
  reads back as that number; \<^verbatim>\<open>undefined\<close>, \<^verbatim>\<open>null\<close> and the booleans
  convert to words that are no literal.
\<close>

definition is_digit :: "char \<Rightarrow> bool" where
  "is_digit c = (CHR ''0'' \<le> c \<and> c \<le> CHR ''9'')"

definition is_space :: "char \<Rightarrow> bool" where
  "is_space c = (of_char c \<in> {9, 10, 11, 12, 13, 32 :: nat})"

text \<open>The number that a string of digits denotes, after the digits read so far.\<close>

fun digits :: "nat \<Rightarrow> string \<Rightarrow> nat" where
  "digits acc [] = acc"
| "digits acc (c # cs) = digits (10 * acc + (of_char c - 48)) cs"

text \<open>
  The exponent part at the head of a string, if there is one: \<^verbatim>\<open>e\<close> or \<^verbatim>\<open>E\<close>,
  an optional sign, and at least one digit.
\<close>

definition exponent :: "string \<Rightarrow> int" where
  "exponent s =
     (case s of
        [] \<Rightarrow> 0
      | c # r \<Rightarrow>
          if c = CHR ''e'' \<or> c = CHR ''E'' then
            (case r of
               [] \<Rightarrow> 0
             | sg # r' \<Rightarrow>
                 if sg = CHR ''-'' then - int (digits 0 (takeWhile is_digit r'))
                 else if sg = CHR ''+'' then int (digits 0 (takeWhile is_digit r'))
                 else int (digits 0 (takeWhile is_digit r)))
          else 0)"

definition scale :: "real \<Rightarrow> int \<Rightarrow> real" where
  "scale m e = (if 0 \<le> e then m * 10 ^ nat e else m / 10 ^ nat (- e))"

text \<open>An unsigned literal at the head of a string: \<open>None\<close> when there is none.\<close>

definition unsigned_literal :: "string \<Rightarrow> real option option" where
  "unsigned_literal s =
     (if take 8 s = ''Infinity'' then Some None
      else
        (let ip = takeWhile is_digit s; r1 = dropWhile is_digit s
         in case r1 of
              c # r2 \<Rightarrow>
                if c = CHR ''.'' then
                  (let fp = takeWhile is_digit r2; r3 = dropWhile is_digit r2
                   in if ip = [] \<and> fp = [] then None
                      else Some (Some (scale (real (digits 0 (ip @ fp)))
                                         (exponent r3 - int (length fp)))))
                else if ip = [] then None
                else Some (Some (scale (real (digits 0 ip)) (exponent r1)))
            | [] \<Rightarrow> if ip = [] then None else Some (Some (real (digits 0 ip)))))"

definition parseFloat_string :: "string \<Rightarrow> jsval" where
  "parseFloat_string s0 =
     (let s = dropWhile is_space s0
      in case s of
           [] \<Rightarrow> JNaN
         | c # r \<Rightarrow>
             if c = CHR ''-'' then
               (case unsigned_literal r of
                  None \<Rightarrow> JNaN
                | Some None \<Rightarrow> JNegInfinity
                | Some (Some x) \<Rightarrow> JNum (- x))
             else
               (case unsigned_literal (if c = CHR ''+'' then r else s) of
                  None \<Rightarrow> JNaN
                | Some None \<Rightarrow> JInfinity
                | Some (Some x) \<Rightarrow> JNum x))"

fun parseFloat :: "jsval \<Rightarrow> jsval" where
  "parseFloat (JStr s) = parseFloat_string s"
| "parseFloat (JNum r) = JNum r"
| "parseFloat JInfinity = JInfinity"
| "parseFloat JNegInfinity = JNegInfinity"
| "parseFloat v = JNaN"

text \<open>
  A parsed request body is an object: a finite map from property names to values.
  Destructuring \<^verbatim>\<open>const { id, ... } = req.body\<close> reads a property and yields
  \<^verbatim>\<open>undefined\<close> where the body has none.
\<close>

type_synonym body = "string \<rightharpoonup> jsval"

definition destructure :: "body \<Rightarrow> string \<Rightarrow> jsval" where
  "destructure b k = (case b k of None \<Rightarrow> JUndefined | Some v \<Rightarrow> v)"

section \<open>Expense records\<close>

text \<open>
  The one entity of the program. The server keeps whatever values the body held
  (\<open>stored_expense\<close>); the client builds its records from its form and from
  \<^verbatim>\<open>uuidv4()\<close>, so there the identifier and the texts are strings and the amount a
  number (\<open>remote_expense\<close>, and \<open>local_expense\<close> with the \<^verbatim>\<open>synced\<close> flag that
  only the client keeps). The field \<^verbatim>\<open>id\<close> is written \<open>id'\<close>, and a record
  that the source calls \<^verbatim>\<open>exp\<close> is called \<open>e\<close>.
\<close>

record ('i, 'a, 's) expense =
  id' :: 'i
  amount :: 'a
  description :: 's
  category :: 's
  date :: 's

type_synonym stored_expense = "(jsval, jsval, jsval) expense"

type_synonym remote_expense = "(string, real, string) expense"

record local_expense = "(string, real, string) expense" +
  synced :: bool

section \<open>The remote service (server.js)\<close>

text \<open>
  The module state: the list \<^verbatim>\<open>expenses\<close> and the file \<^verbatim>\<open>data/expenses.json\<close>
  (\<open>None\<close> while it does not exist). \<open>saves\<close> counts the calls of
  \<^verbatim>\<open>saveToDisk\<close>, so that a handler that does not rewrite the file can be told from
  one that rewrites it with the same content. \<open>disk_ok\<close> says whether
  \<^verbatim>\<open>fs.writeFile\<close> succeeds; a failure is caught and only logged.
\<close>

record server =
  expenses :: "stored_expense list"
  data_file :: "stored_expense list option"
  saves :: nat
  disk_ok :: bool

definition saveToDisk :: "server \<Rightarrow> server" where
  "saveToDisk s =
     (if disk_ok s
      then s\<lparr>data_file := Some (expenses s), saves := Suc (saves s)\<rparr>
      else s\<lparr>saves := Suc (saves s)\<rparr>)"

datatype payload =
    Error string
  | Expense stored_expense
  | Expenses "stored_expense list"
  | Empty

record response =
  status :: nat
  body :: payload

text \<open>\<^verbatim>\<open>Array.prototype.findIndex\<close>; \<open>None\<close> stands for \<^verbatim>\<open>-1\<close>.\<close>

fun findIndex :: "('a \<Rightarrow> bool) \<Rightarrow> 'a list \<Rightarrow> nat option" where
  "findIndex p [] = None"
| "findIndex p (x # xs) =
     (if p x then Some 0
      else (case findIndex p xs of None \<Rightarrow> None | Some i \<Rightarrow> Some (Suc i)))"

text \<open>\<^verbatim>\<open>xs.splice(i, 1)\<close> at an index \<open>i\<close> of the list.\<close>

definition splice1 :: "nat \<Rightarrow> 'a list \<Rightarrow> 'a list" where
  "splice1 i xs = take i xs @ drop (Suc i) xs"

text \<open>
  The handlers. The route parameter \<^verbatim>\<open>req.params.id\<close> is a string, and
  \<^verbatim>\<open>exp.id === id\<close> holds exactly when the stored identifier is that string.
\<close>

definition get_expenses :: "server \<Rightarrow> response \<times> server" where
  "get_expenses s = (\<lparr>status = 200, body = Expenses (expenses s)\<rparr>, s)"

definition post_expenses :: "server \<Rightarrow> body \<Rightarrow> response \<times> server" where
  "post_expenses s b =
     (let idv = destructure b ''id''; amountv = destructure b ''amount'';
          descriptionv = destructure b ''description''; categoryv = destructure b ''category'';
          datev = destructure b ''date''
      in if falsy idv \<or> falsy amountv \<or> falsy descriptionv \<or> falsy categoryv \<or> falsy datev
         then (\<lparr>status = 400, body = Error ''All fields are required''\<rparr>, s)
         else
           (let newExpense = \<lparr>id' = idv, amount = parseFloat amountv, description = descriptionv,
                               category = categoryv, date = datev\<rparr>;
                s1 = s\<lparr>expenses := expenses s @ [newExpense]\<rparr>;
                s2 = saveToDisk s1
            in (\<lparr>status = 201, body = Expense newExpense\<rparr>, s2)))"

definition put_expense :: "server \<Rightarrow> string \<Rightarrow> body \<Rightarrow> response \<times> server" where
  "put_expense s i b =
     (let amountv = destructure b ''amount''; descriptionv = destructure b ''description'';
          categoryv = destructure b ''category''; datev = destructure b ''date''
      in case findIndex (\<lambda>e. id' e = JStr i) (expenses s) of
           None \<Rightarrow> (\<lparr>status = 404, body = Error ''Expense not found''\<rparr>, s)
         | Some expenseIndex \<Rightarrow>
             if falsy amountv \<or> falsy descriptionv \<or> falsy categoryv \<or> falsy datev
             then (\<lparr>status = 400, body = Error ''All fields are required''\<rparr>, s)
             else
               (let updated = \<lparr>id' = JStr i, amount = parseFloat amountv, description = descriptionv,
                                category = categoryv, date = datev\<rparr>;
                    s1 = s\<lparr>expenses := (expenses s)[expenseIndex := updated]\<rparr>;
                    s2 = saveToDisk s1
                in (\<lparr>status = 200, body = Expense (expenses s2 ! expenseIndex)\<rparr>, s2)))"

definition delete_expense :: "server \<Rightarrow> string \<Rightarrow> response \<times> server" where
  "delete_expense s i =
     (case findIndex (\<lambda>e. id' e = JStr i) (expenses s) of
        None \<Rightarrow> (\<lparr>status = 404, body = Error ''Expense not found''\<rparr>, s)
      | Some expenseIndex \<Rightarrow>
          (let s1 = s\<lparr>expenses := splice1 expenseIndex (expenses s)\<rparr>;
               s2 = saveToDisk s1
           in (\<lparr>status = 204, body = Empty\<rparr>, s2)))"

text \<open>The four routes that the application registers.\<close>

datatype request =
    GET
  | POST body
  | PUT string body
  | DELETE string

fun serve :: "server \<Rightarrow> request \<Rightarrow> response \<times> server" where
  "serve s GET = get_expenses s"
| "serve s (POST b) = post_expenses s b"
| "serve s (PUT i b) = put_expense s i b"
| "serve s (DELETE i) = delete_expense s i"

section \<open>The local store (db.js)\<close>

text \<open>
  The IndexedDB object store \<^verbatim>\<open>expenses\<close> with key path \<^verbatim>\<open>id\<close>: at most one
  record per key, and \<^verbatim>\<open>getAll\<close> returns the records in ascending key order
  (strings compare by their code units, lexicographically). The store is the list of
  its records in that order. \<^verbatim>\<open>add\<close> rejects a key that is already there,
  \<^verbatim>\<open>put\<close> replaces the record under the key, \<^verbatim>\<open>delete\<close> succeeds whether or
  not the key is there.
\<close>

type_synonym store = "local_expense list"

datatype idb_error = ConstraintError

definition getExpenses :: "store \<Rightarrow> local_expense list" where
  "getExpenses d = d"

definition addExpense :: "local_expense \<Rightarrow> store \<Rightarrow> idb_error + store" where
  "addExpense e d =
     (if id' e \<in> set (map id' d) then Inl ConstraintError else Inr (insort_key id' e d))"

definition updateExpense :: "local_expense \<Rightarrow> store \<Rightarrow> store" where
  "updateExpense e d = insort_key id' e (filter (\<lambda>x. id' x \<noteq> id' e) d)"

definition deleteExpense :: "string \<Rightarrow> store \<Rightarrow> store" where
  "deleteExpense k d = filter (\<lambda>x. id' x \<noteq> k) d"

text \<open>What the object store guarantees of its content: keys ascending, none twice.\<close>

definition keyed :: "store \<Rightarrow> bool" where
  "keyed d = (sorted (map id' d) \<and> distinct (map id' d))"

section \<open>The client (App.jsx)\<close>

text \<open>
  The part of the component's state that the reconciliation logic reads and writes:
  the local store and the React state \<^verbatim>\<open>expenses\<close> (the working set that is
  displayed).
\<close>

record client =
  db :: store
  expenses_state :: "local_expense list"

text \<open>
  A call of \<^verbatim>\<open>fetch\<close> either resolves with a response, whatever its status, or
  rejects (the service cannot be reached); a rejected \<^verbatim>\<open>await\<close> throws.
\<close>

datatype fetch_result = Resolved | Rejected

subsection \<open>loadExpenses\<close>

text \<open>
  \<open>fetched\<close> is what \<^verbatim>\<open>fetch(API_BASE/expenses)\<close> and \<^verbatim>\<open>response.json()\<close>
  deliver: the remote list, or \<open>None\<close> when one of them throws, which the
  \<^verbatim>\<open>catch\<close> block turns into the local view.
\<close>

definition withFlag :: "remote_expense \<Rightarrow> local_expense" where
  "withFlag e = expense.extend e (local_expense.fields True)"

definition loadExpenses :: "bool \<Rightarrow> remote_expense list option \<Rightarrow> client \<Rightarrow> client" where
  "loadExpenses isOnline fetched c =
     (if isOnline then
        (case fetched of
           Some serverExpenses \<Rightarrow>
             (let serverWithFlag = map withFlag serverExpenses;
                  localExpenses = getExpenses (db c);
                  pendingLocal = filter (\<lambda>le. \<not> synced le) localExpenses;
                  serverIds = set (map id' serverWithFlag);
                  pendingNotOnServer = filter (\<lambda>p. id' p \<notin> serverIds) pendingLocal;
                  merged = serverWithFlag @ pendingNotOnServer
              in \<lparr>db = foldl (\<lambda>d e. updateExpense e d) (db c) serverWithFlag,
                  expenses_state = merged\<rparr>)
         | None \<Rightarrow> c\<lparr>expenses_state := getExpenses (db c)\<rparr>)
      else c\<lparr>expenses_state := getExpenses (db c)\<rparr>)"

subsection \<open>syncExpenses\<close>

text \<open>
  The loop over the snapshot \<^verbatim>\<open>localExpenses\<close>. \<open>net\<close> tells, for each record
  that is pushed, whether its \<^verbatim>\<open>fetch\<close> resolves. The loop threads the store and
  the list of the bodies it has posted; \<open>Inl\<close> is the loop left by the exception of
  a rejected \<^verbatim>\<open>fetch\<close>, with the state at that moment.
\<close>

fun push_loop ::
  "(local_expense \<Rightarrow> fetch_result) \<Rightarrow> local_expense list \<Rightarrow> store \<Rightarrow> local_expense list \<Rightarrow>
   (store \<times> local_expense list) + (store \<times> local_expense list)" where
  "push_loop net [] d posted = Inr (d, posted)"
| "push_loop net (e # rest) d posted =
     (if \<not> synced e then
        (case net e of
           Rejected \<Rightarrow> Inl (d, posted @ [e])
         | Resolved \<Rightarrow>
             push_loop net rest (updateExpense (e\<lparr>synced := True\<rparr>) d) (posted @ [e]))
      else push_loop net rest d posted)"

record sync_result =
  client_after :: client
  posts :: "local_expense list"
  reloaded :: bool

definition syncExpenses ::
  "bool \<Rightarrow> (local_expense \<Rightarrow> fetch_result) \<Rightarrow> remote_expense list option \<Rightarrow> client \<Rightarrow> sync_result" where
  "syncExpenses isOnline net fetched c =
     (let localExpenses = getExpenses (db c)
      in case push_loop net localExpenses (db c) [] of
           Inr (d, posted) \<Rightarrow>
             \<lparr>client_after = loadExpenses isOnline fetched (c\<lparr>db := d\<rparr>),
              posts = posted, reloaded = True\<rparr>
         | Inl (d, posted) \<Rightarrow>
             \<lparr>client_after = c\<lparr>db := d\<rparr>, posts = posted, reloaded = False\<rparr>)"

subsection \<open>handleDelete\<close>

text \<open>
  The client together with the service it talks to, and the requests it has sent.
  A \<^verbatim>\<open>fetch\<close> that resolves has been handled by the service; one that rejects has
  not reached it. \<open>Inl\<close> is the handler left by the exception, with the state then.
\<close>

record world =
  remote :: server
  app :: client
  sent :: "request list"

definition fetch_DELETE :: "fetch_result \<Rightarrow> string \<Rightarrow> world \<Rightarrow> world + world" where
  "fetch_DELETE net i w =
     (let w1 = w\<lparr>sent := sent w @ [DELETE i]\<rparr>
      in case net of
           Rejected \<Rightarrow> Inl w1
         | Resolved \<Rightarrow> Inr (w1\<lparr>remote := snd (delete_expense (remote w1) i)\<rparr>))"

definition handleDelete :: "bool \<Rightarrow> fetch_result \<Rightarrow> string \<Rightarrow> world \<Rightarrow> world + world" where
  "handleDelete isOnline net i w =
     (case (if isOnline then fetch_DELETE net i w else Inr w) of
        Inl w1 \<Rightarrow> Inl w1
      | Inr w1 \<Rightarrow>
          Inr (w1\<lparr>app := \<lparr>db = deleteExpense i (db (app w1)),
                          expenses_state = filter (\<lambda>e. id' e \<noteq> i) (expenses_state (app w1))\<rparr>\<rparr>))"

subsection \<open>getSummary\<close>

text \<open>
  The platform's \<^verbatim>\<open>Date\<close>, as far as \<^verbatim>\<open>getSummary\<close> uses it. A time is the
  number of milliseconds since the epoch. \<open>newDate y m d\<close> is the time of
  \<^verbatim>\<open>new Date(y, m, d)\<close> (local midnight), \<open>parseDate s\<close> the time of
  \<^verbatim>\<open>new Date(s)\<close>, \<open>None\<close> for an invalid date, whose time is \<^verbatim>\<open>NaN\<close>.
\<close>

record dates =
  getFullYear :: "int \<Rightarrow> int"
  getMonth :: "int \<Rightarrow> int"
  getDate :: "int \<Rightarrow> int"
  newDate :: "int \<Rightarrow> int \<Rightarrow> int \<Rightarrow> int"
  parseDate :: "string \<Rightarrow> int option"

text \<open>
  \<^verbatim>\<open>a >= b\<close> on dates compares their times; it is false when a time is
  \<^verbatim>\<open>NaN\<close> and when \<^verbatim>\<open>b\<close> is \<^verbatim>\<open>undefined\<close> (\<open>None\<close> on either side).
\<close>

fun date_ge :: "int option \<Rightarrow> int option \<Rightarrow> bool" where
  "date_ge (Some a) (Some b) = (b \<le> a)"
| "date_ge a b = False"

text \<open>
  \<open>now\<close> is the time of \<^verbatim>\<open>new Date()\<close>, \<open>exps\<close> the working set. Amounts are
  finite numbers, added as reals.
\<close>

definition period_start :: "dates \<Rightarrow> int \<Rightarrow> string \<Rightarrow> int option" where
  "period_start D now period =
     (if period = ''today''
      then Some (newDate D (getFullYear D now) (getMonth D now) (getDate D now))
      else if period = ''week''
      then Some (now - 7 * 24 * 60 * 60 * 1000)
      else if period = ''month''
      then Some (newDate D (getFullYear D now) (getMonth D now) 1)
      else None)"

definition getSummary :: "dates \<Rightarrow> int \<Rightarrow> local_expense list \<Rightarrow> string \<Rightarrow> real" where
  "getSummary D now exps period =
     (let start = period_start D now period
      in foldl (\<lambda>sum e. sum + amount e) 0
           (filter (\<lambda>e. date_ge (parseDate D (date e)) start) exps))"

subsection \<open>A platform: the proleptic Gregorian calendar in UTC\<close>

text \<open>
  One instance of \<open>dates\<close>, for evaluating \<^verbatim>\<open>getSummary\<close> on concrete working
  sets: a browser whose time zone is UTC. Day numbers count from 1970-01-01; months
  are 1 to 12 in \<open>days_from_civil\<close> and \<open>civil_from_days\<close>, and 0 to 11 in
  \<^verbatim>\<open>getMonth\<close> and \<^verbatim>\<open>new Date(y, m, d)\<close>. The parser reads the date-only form
  \<^verbatim>\<open>YYYY-MM-DD\<close>, which is what \<^verbatim>\<open><input type="date">\<close> produces, as midnight
  UTC, and takes nothing else for a date.
\<close>

definition days_from_civil :: "int \<Rightarrow> int \<Rightarrow> int \<Rightarrow> int" where
  "days_from_civil y m d =
     (let y1 = (if m \<le> 2 then y - 1 else y);
          era = y1 div 400;
          yoe = y1 - era * 400;
          doy = (153 * (if 2 < m then m - 3 else m + 9) + 2) div 5 + d - 1;
          doe = yoe * 365 + yoe div 4 - yoe div 100 + doy
      in era * 146097 + doe - 719468)"

definition civil_from_days :: "int \<Rightarrow> int \<times> int \<times> int" where
  "civil_from_days n =
     (let z = n + 719468;
          era = z div 146097;
          doe = z - era * 146097;
          yoe = (doe - doe div 1460 + doe div 36524 - doe div 146096) div 365;
          doy = doe - (365 * yoe + yoe div 4 - yoe div 100);
          mp = (5 * doy + 2) div 153;
          d = doy - (153 * mp + 2) div 5 + 1;
          m = (if mp < 10 then mp + 3 else mp - 9);
          y = yoe + era * 400
      in (if m \<le> 2 then y + 1 else y, m, d))"

definition ms_per_day :: int where
  "ms_per_day = 24 * 60 * 60 * 1000"

definition number :: "string \<Rightarrow> int option" where
  "number s = (if list_all is_digit s then Some (int (digits 0 s)) else None)"

definition days_in_month :: "int \<Rightarrow> int \<Rightarrow> int" where
  "days_in_month y m =
     (if m = 2 then (if y mod 4 = 0 \<and> (y mod 100 \<noteq> 0 \<or> y mod 400 = 0) then 29 else 28)
      else if m = 4 \<or> m = 6 \<or> m = 9 \<or> m = 11 then 30 else 31)"

definition parse_date_only :: "string \<Rightarrow> int option" where
  "parse_date_only s =
     (if length s = 10 \<and> s ! 4 = CHR ''-'' \<and> s ! 7 = CHR ''-'' then
        (case (number (take 4 s), number (take 2 (drop 5 s)), number (drop 8 s)) of
           (Some y, Some m, Some d) \<Rightarrow>
             if 1 \<le> m \<and> m \<le> 12 \<and> 1 \<le> d \<and> d \<le> days_in_month y m
             then Some (days_from_civil y m d * ms_per_day)
             else None
         | _ \<Rightarrow> None)
      else None)"

definition utc :: dates where
  "utc =
     \<lparr>getFullYear = (\<lambda>t. fst (civil_from_days (t div ms_per_day))),
      getMonth = (\<lambda>t. fst (snd (civil_from_days (t div ms_per_day))) - 1),
      getDate = (\<lambda>t. snd (snd (civil_from_days (t div ms_per_day)))),
      newDate = (\<lambda>y m d. days_from_civil y (m + 1) d * ms_per_day),
      parseDate = parse_date_only\<rparr>"

text \<open>
  A second instance: a browser whose local time is always five hours behind UTC. Its
  local calendar is that of the time five hours earlier, its local midnights are five
  hours after those of UTC, and its parser is the same, since the date-only form is
  read as midnight UTC in every time zone.
\<close>

definition five_hours :: int where
  "five_hours = 5 * 60 * 60 * 1000"

definition five_west :: dates where
  "five_west =
     \<lparr>getFullYear = (\<lambda>t. fst (civil_from_days ((t - five_hours) div ms_per_day))),
      getMonth = (\<lambda>t. fst (snd (civil_from_days ((t - five_hours) div ms_per_day))) - 1),
      getDate = (\<lambda>t. snd (snd (civil_from_days ((t - five_hours) div ms_per_day)))),
      newDate = (\<lambda>y m d. days_from_civil y (m + 1) d * ms_per_day + five_hours),
      parseDate = parse_date_only\<rparr>"

section \<open>The properties in the specification's words\<close>

text \<open>
  In the specification a record's \<^verbatim>\<open>date\<close> is a calendar date, with no time of
  day and no time zone, and the windows are local: they start at the start of the
  local day or month. \<open>calendar_date\<close> is the calendar date that a record's
  \<^verbatim>\<open>YYYY-MM-DD\<close> names, and \<open>local_midnight\<close> is where that date starts on the
  local clock: the time of \<^verbatim>\<open>new Date(y, m - 1, d)\<close>. A date ``falls within'' a
  window that runs from a start ``through now'' when it starts in it
  (\<open>falls_within\<close>); \<open>falls_since\<close> is the window with a start and no end.
  \<open>total\<close> is the sum of the amounts of a list of records.
\<close>

definition calendar_date :: "string \<Rightarrow> (int \<times> int \<times> int) option" where
  "calendar_date s =
     (if length s = 10 \<and> s ! 4 = CHR ''-'' \<and> s ! 7 = CHR ''-'' then
        (case (number (take 4 s), number (take 2 (drop 5 s)), number (drop 8 s)) of
           (Some y, Some m, Some d) \<Rightarrow>
             if 1 \<le> m \<and> m \<le> 12 \<and> 1 \<le> d \<and> d \<le> days_in_month y m
             then Some (y, m, d)
             else None
         | _ \<Rightarrow> None)
      else None)"

definition local_midnight :: "dates \<Rightarrow> string \<Rightarrow> int option" where
  "local_midnight D s =
     (case calendar_date s of None \<Rightarrow> None | Some (y, m, d) \<Rightarrow> Some (newDate D y (m - 1) d))"

definition falls_since :: "dates \<Rightarrow> int \<Rightarrow> local_expense \<Rightarrow> bool" where
  "falls_since D lo e =
     (case local_midnight D (date e) of None \<Rightarrow> False | Some t \<Rightarrow> lo \<le> t)"

definition falls_within :: "dates \<Rightarrow> int \<Rightarrow> int \<Rightarrow> local_expense \<Rightarrow> bool" where
  "falls_within D lo hi e =
     (case local_midnight D (date e) of None \<Rightarrow> False | Some t \<Rightarrow> lo \<le> t \<and> t \<le> hi)"

definition total :: "local_expense list \<Rightarrow> real" where
  "total es = sum_list (map amount es)"

text \<open>
  The filter of \<^verbatim>\<open>getSummary\<close>, which takes a record's date where the platform's
  parser puts it.
\<close>

definition dated_since :: "dates \<Rightarrow> int \<Rightarrow> local_expense \<Rightarrow> bool" where
  "dated_since D lo e = (case parseDate D (date e) of None \<Rightarrow> False | Some t \<Rightarrow> lo \<le> t)"

section \<open>Concrete states and requests\<close>

text \<open>
  The record of the specification's scenarios (a coffee for 12.50 on 2024-01-15, with
  the identifier 1) as the service stores it, as a request body, and as the client
  receives it; a service that holds it once, and one that holds it twice (the record,
  and the copy that a later push of an offline edit has appended).
\<close>

definition coffee :: stored_expense where
  "coffee = \<lparr>id' = JStr ''1'', amount = JNum 12.5, description = JStr ''Coffee'',
             category = JStr ''Food'', date = JStr ''2024-01-15''\<rparr>"

definition coffee_body :: body where
  "coffee_body =
     [''id'' \<mapsto> JStr ''1'', ''amount'' \<mapsto> JNum 13, ''description'' \<mapsto> JStr ''Coffee'',
      ''category'' \<mapsto> JStr ''Food'', ''date'' \<mapsto> JStr ''2024-01-15'', ''synced'' \<mapsto> JBool False]"

definition sample_body :: body where
  "sample_body =
     [''id'' \<mapsto> JStr ''5'', ''amount'' \<mapsto> JNum 0, ''description'' \<mapsto> JStr ''Free sample'',
      ''category'' \<mapsto> JStr ''Food'', ''date'' \<mapsto> JStr ''2024-01-15'']"

definition one_coffee :: server where
  "one_coffee = \<lparr>expenses = [coffee], data_file = Some [coffee], saves = 1, disk_ok = True\<rparr>"

definition two_coffees :: server where
  "two_coffees =
     \<lparr>expenses = [coffee, coffee\<lparr>amount := JNum 13\<rparr>],
      data_file = Some [coffee, coffee\<lparr>amount := JNum 13\<rparr>], saves = 2, disk_ok = True\<rparr>"

definition coffee_remote :: remote_expense where
  "coffee_remote = \<lparr>id' = ''1'', amount = 12.5, description = ''Coffee'',
                    category = ''Food'', date = ''2024-01-15''\<rparr>"

text \<open>
  A local store: the coffee, edited while offline; a bus ticket entered while offline;
  the rent, which is synced; and a client that holds them. \<open>party\<close> is a record dated
  five days after \<open>noon\<close>, which is 2024-01-15 12:00 UTC.
\<close>

definition coffee_local :: local_expense where
  "coffee_local = \<lparr>id' = ''1'', amount = 13, description = ''Coffee'',
                   category = ''Food'', date = ''2024-01-15'', synced = False\<rparr>"

definition bus :: local_expense where
  "bus = \<lparr>id' = ''2'', amount = 3, description = ''Bus'',
          category = ''Transport'', date = ''2024-01-10'', synced = False\<rparr>"

definition rent :: local_expense where
  "rent = \<lparr>id' = ''3'', amount = 500, description = ''January'',
           category = ''Rent'', date = ''2024-01-02'', synced = True\<rparr>"

definition party :: local_expense where
  "party = \<lparr>id' = ''4'', amount = 30, description = ''Party'',
            category = ''Entertainment'', date = ''2024-01-20'', synced = True\<rparr>"

definition phone :: client where
  "phone = \<lparr>db = [coffee_local, bus, rent], expenses_state = [coffee_local, bus, rent]\<rparr>"

definition noon :: int where
  "noon = 1705320000000"

text \<open>Noon of the same day on the clock that is five hours behind UTC: 17:00 UTC.\<close>

definition noon_west :: int where
  "noon_west = 1705338000000"

text \<open>
  A network on which every push resolves, one on which the push of record 1 rejects,
  and one on which the push of record 2 rejects.
\<close>

definition reachable :: "local_expense \<Rightarrow> fetch_result" where
  "reachable e = Resolved"

definition first_fails :: "local_expense \<Rightarrow> fetch_result" where
  "first_fails e = (if id' e = ''1'' then Rejected else Resolved)"

definition second_fails :: "local_expense \<Rightarrow> fetch_result" where
  "second_fails e = (if id' e = ''2'' then Rejected else Resolved)"

text \<open>The client with a service that holds the coffee once, and with one that holds it twice.\<close>

definition tidy :: world where
  "tidy = \<lparr>remote = one_coffee, app = phone, sent = []\<rparr>"

definition doubled :: world where
  "doubled = \<lparr>remote = two_coffees, app = phone, sent = []\<rparr>"

lemmas example_defs =
  coffee_def coffee_body_def sample_body_def one_coffee_def two_coffees_def coffee_remote_def
  coffee_local_def bus_def rent_def party_def phone_def noon_def reachable_def first_fails_def
  second_fails_def tidy_def doubled_def noon_west_def

section \<open>The remote service: responses and errors\<close>

lemma findIndex_None_iff: "findIndex p xs = None \<longleftrightarrow> \<not> list_ex p xs"
  by (induction xs) (auto split: option.splits)

lemma findIndex_Some:
  "findIndex p xs = Some i \<Longrightarrow> i < length xs \<and> p (xs ! i) \<and> \<not> list_ex p (take i xs)"
proof (induction xs arbitrary: i)
  case Nil
  then show ?case by simp
next
  case (Cons x xs)
  then show ?case by (auto split: if_splits option.splits)
qed

text \<open>
  What \<^verbatim>\<open>POST /expenses\<close> answers, for every body: 400 exactly when one of the
  five values is falsy, else 201 with the record it has appended.
\<close>

lemma post_expenses_status:
  "status (fst (post_expenses s b)) =
     (if falsy (destructure b ''id'') \<or> falsy (destructure b ''amount'') \<or>
         falsy (destructure b ''description'') \<or> falsy (destructure b ''category'') \<or>
         falsy (destructure b ''date'')
      then 400 else 201)"
  by (simp add: post_expenses_def Let_def)

lemma post_expenses_created:
  assumes "status (fst (post_expenses s b)) = 201"
  shows "\<exists>e. body (fst (post_expenses s b)) = Expense e \<and>
             expenses (snd (post_expenses s b)) = expenses s @ [e] \<and>
             id' e = destructure b ''id''"
  using assms by (auto simp: post_expenses_def Let_def saveToDisk_def split: if_splits)

text \<open>
  C6. \<^verbatim>\<open>POST /expenses\<close> is to answer 201 with the stored record when the body has
  all of id, amount, description, category and date, and 400 only when one of them is
  missing. The body \<open>sample_body\<close> has all five, with the amount 0; the handler
  answers 400 ``All fields are required'' and stores nothing, because
  \<^verbatim>\<open>!amount\<close> is true of the number 0.
\<close>

theorem post_zero_amount_rejected:
  "list_all (\<lambda>k. sample_body k \<noteq> None) [''id'', ''amount'', ''description'', ''category'', ''date''] \<and>
   post_expenses one_coffee sample_body =
     (\<lparr>status = 400, body = Error ''All fields are required''\<rparr>, one_coffee)"
  by (simp add: post_expenses_def sample_body_def destructure_def)

text \<open>
  C7. A \<^verbatim>\<open>PUT /expenses/:id\<close> whose id is the id of no stored record is answered
  with the status 404 and the body \<^verbatim>\<open>{"error": "Expense not found"}\<close>, whatever the
  request body holds.
\<close>

theorem put_unknown_id_404:
  "\<not> list_ex (\<lambda>e. id' e = JStr i) (expenses s) \<Longrightarrow>
   fst (put_expense s i b) = \<lparr>status = 404, body = Error ''Expense not found''\<rparr>"
  by (simp add: put_expense_def findIndex_None_iff [symmetric])

text \<open>The scenario of the specification: \<^verbatim>\<open>PUT /expenses/999\<close> on a store without 999.\<close>

theorem put_unknown_id_404_witness:
  "\<not> list_ex (\<lambda>e. id' e = JStr ''999'') (expenses one_coffee) \<and>
   fst (put_expense one_coffee ''999'' coffee_body) =
     \<lparr>status = 404, body = Error ''Expense not found''\<rparr>"
proof -
  have h: "\<not> list_ex (\<lambda>e. id' e = JStr ''999'') (expenses one_coffee)"
    by (simp add: one_coffee_def coffee_def)
  show ?thesis
    using h put_unknown_id_404 [OF h, of coffee_body] by simp
qed

text \<open>
  C10. Whatever the request, when the service answers with the status 400 or 404 its
  state is what it was: the list in memory is unchanged, and the file has not been
  written (\<open>saves\<close> and \<open>data_file\<close> are part of the state).
\<close>

theorem error_leaves_state:
  "status (fst (serve s r)) = 400 \<or> status (fst (serve s r)) = 404 \<Longrightarrow> snd (serve s r) = s"
  by (cases r)
    (auto simp: get_expenses_def post_expenses_def put_expense_def delete_expense_def Let_def
      split: option.splits if_splits)

text \<open>A delete of an unknown id is answered 404; a post without a date is answered 400.\<close>

theorem error_leaves_state_witness:
  "status (fst (serve one_coffee (DELETE ''999''))) = 404 \<and>
   snd (serve one_coffee (DELETE ''999'')) = one_coffee \<and>
   status (fst (serve one_coffee (POST (coffee_body(''date'' := None))))) = 400 \<and>
   snd (serve one_coffee (POST (coffee_body(''date'' := None)))) = one_coffee"
proof -
  have d: "status (fst (serve one_coffee (DELETE ''999''))) = 404"
    by (simp add: delete_expense_def one_coffee_def coffee_def)
  have p: "status (fst (serve one_coffee (POST (coffee_body(''date'' := None))))) = 400"
    by (simp add: post_expenses_def coffee_body_def destructure_def)
  show ?thesis
    using d p error_leaves_state [of one_coffee "DELETE ''999''"]
      error_leaves_state [of one_coffee "POST (coffee_body(''date'' := None))"]
    by simp
qed

section \<open>The local store keeps one record per id\<close>

lemma distinct_map_insort_key:
  "distinct (map f (insort_key f x xs)) \<longleftrightarrow> f x \<notin> f ` set xs \<and> distinct (map f xs)"
  by (induction xs) (auto simp: set_insort_key)

lemma keyed_empty: "keyed []"
  by (simp add: keyed_def)

lemma keyed_updateExpense: "keyed d \<Longrightarrow> keyed (updateExpense e d)"
  by (auto simp: keyed_def updateExpense_def sorted_insort_key distinct_map_insort_key
      sorted_filter distinct_map_filter)

lemma keyed_deleteExpense: "keyed d \<Longrightarrow> keyed (deleteExpense k d)"
  by (auto simp: keyed_def deleteExpense_def sorted_filter distinct_map_filter)

lemma keyed_addExpense: "keyed d \<Longrightarrow> addExpense e d = Inr d' \<Longrightarrow> keyed d'"
  by (auto simp: keyed_def addExpense_def sorted_insort_key distinct_map_insort_key
      split: if_splits)

lemma keyed_foldl_updateExpense: "keyed d \<Longrightarrow> keyed (foldl (\<lambda>d e. updateExpense e d) d es)"
  by (induction es arbitrary: d) (simp_all add: keyed_updateExpense)

lemma keyed_loadExpenses: "keyed (db c) \<Longrightarrow> keyed (db (loadExpenses isOnline fetched c))"
  by (auto simp: loadExpenses_def Let_def keyed_foldl_updateExpense split: option.splits)

lemma keyed_push_loop:
  "keyed d \<Longrightarrow> keyed (fst (case_sum (\<lambda>x. x) (\<lambda>x. x) (push_loop net es d posted)))"
proof (induction es arbitrary: d posted)
  case Nil
  then show ?case by simp
next
  case (Cons e es)
  show ?case
  proof (cases "synced e")
    case True
    then show ?thesis using Cons by simp
  next
    case False
    show ?thesis
    proof (cases "net e")
      case Resolved
      then show ?thesis
        using False Cons.IH [OF keyed_updateExpense [OF Cons.prems]] by simp
    next
      case Rejected
      then show ?thesis using False Cons.prems by simp
    qed
  qed
qed

lemma keyed_syncExpenses:
  assumes "keyed (db c)"
  shows "keyed (db (client_after (syncExpenses isOnline net fetched c)))"
proof (cases "push_loop net (getExpenses (db c)) (db c) []")
  case (Inl a)
  then have "keyed (fst a)"
    using keyed_push_loop [OF assms, of net "getExpenses (db c)" "[]"] by simp
  then show ?thesis using Inl by (cases a) (simp add: syncExpenses_def)
next
  case (Inr b)
  then have "keyed (fst b)"
    using keyed_push_loop [OF assms, of net "getExpenses (db c)" "[]"] by simp
  then show ?thesis
    using Inr keyed_loadExpenses [of "c\<lparr>db := fst b\<rparr>" isOnline fetched]
    by (cases b) (simp add: syncExpenses_def)
qed

section \<open>The remote store and the ids of its records\<close>

lemma ids_list_update:
  "i < length xs \<Longrightarrow> id' (xs ! i) = id' y \<Longrightarrow> map id' (xs[i := y]) = map id' xs"
  by (simp add: map_update list_update_same_conv)

lemma put_expense_ids: "map id' (expenses (snd (put_expense s i b))) = map id' (expenses s)"
  by (auto simp: put_expense_def Let_def saveToDisk_def ids_list_update
      split: option.splits dest!: findIndex_Some)

lemma distinct_splice1:
  assumes "distinct (map f xs)"
  shows "distinct (map f (splice1 i xs))"
proof -
  have "map f xs = map f (take i xs) @ map f (drop i xs)"
    by (simp flip: map_append)
  then have "distinct (map f (take i xs) @ map f (drop i xs))"
    using assms by simp
  moreover have "set (drop (Suc i) xs) \<subseteq> set (drop i xs)"
    by (rule set_drop_subset_set_drop) simp
  moreover have "distinct (map f (drop (Suc i) xs))"
    using assms by (simp add: distinct_drop flip: drop_map)
  ultimately show ?thesis
    by (auto simp: splice1_def)
qed

lemma delete_expense_distinct:
  "distinct (map id' (expenses s)) \<Longrightarrow> distinct (map id' (expenses (snd (delete_expense s i))))"
  by (auto simp: delete_expense_def Let_def saveToDisk_def distinct_splice1 split: option.splits)

lemma post_expenses_distinct:
  "distinct (map id' (expenses s)) \<Longrightarrow> destructure b ''id'' \<notin> set (map id' (expenses s)) \<Longrightarrow>
   distinct (map id' (expenses (snd (post_expenses s b))))"
  by (auto simp: post_expenses_def Let_def saveToDisk_def)

lemma post_expenses_duplicate:
  "status (fst (post_expenses s b)) = 201 \<Longrightarrow> destructure b ''id'' \<in> set (map id' (expenses s)) \<Longrightarrow>
   \<not> distinct (map id' (expenses (snd (post_expenses s b))))"
  by (auto simp: post_expenses_def Let_def saveToDisk_def split: if_splits)

text \<open>
  C4, as the claim states it, fails on the service: a create request for an id that
  the service already holds is answered 201, and the service then holds two records
  with that id.
\<close>

theorem post_same_id_twice_counterexample:
  "distinct (map id' (expenses one_coffee)) \<and>
   status (fst (post_expenses one_coffee coffee_body)) = 201 \<and>
   map id' (expenses (snd (post_expenses one_coffee coffee_body))) = [JStr ''1'', JStr ''1'']"
  by (simp add: post_expenses_def saveToDisk_def one_coffee_def coffee_def coffee_body_def
      destructure_def Let_def)

text \<open>
  C4, amended. The local store holds one record per id, in key order, and every
  operation on it keeps it so: \<^verbatim>\<open>put\<close> and \<^verbatim>\<open>delete\<close> always, \<^verbatim>\<open>add\<close> by
  rejecting an id that is already there; so do \<^verbatim>\<open>loadExpenses\<close> and
  \<^verbatim>\<open>syncExpenses\<close>. On the service, \<^verbatim>\<open>PUT\<close> leaves the ids of the list as they
  are and \<^verbatim>\<open>DELETE\<close> keeps them distinct; \<^verbatim>\<open>POST\<close> keeps them distinct when the
  id it is given is not yet in the list, and when it accepts an id that is in the list
  the ids are no longer distinct: the service does not enforce uniqueness.
\<close>

theorem ids_unique_preserved:
  "(keyed d \<longrightarrow>
      keyed (updateExpense e d) \<and> keyed (deleteExpense k d) \<and>
      (\<forall>d'. addExpense e d = Inr d' \<longrightarrow> keyed d') \<and>
      (id' e \<in> set (map id' d) \<longrightarrow> addExpense e d = Inl ConstraintError)) \<and>
   (keyed (db c) \<longrightarrow>
      keyed (db (loadExpenses isOnline fetched c)) \<and>
      keyed (db (client_after (syncExpenses isOnline net fetched c)))) \<and>
   map id' (expenses (snd (put_expense s i b))) = map id' (expenses s) \<and>
   (distinct (map id' (expenses s)) \<longrightarrow>
      distinct (map id' (expenses (snd (delete_expense s i)))) \<and>
      (destructure b ''id'' \<notin> set (map id' (expenses s)) \<longrightarrow>
         distinct (map id' (expenses (snd (post_expenses s b)))))) \<and>
   (status (fst (post_expenses s b)) = 201 \<and> destructure b ''id'' \<in> set (map id' (expenses s)) \<longrightarrow>
      \<not> distinct (map id' (expenses (snd (post_expenses s b)))))"
proof (intro conjI impI allI)
  show "map id' (expenses (snd (put_expense s i b))) = map id' (expenses s)"
    by (rule put_expense_ids)
qed (simp_all add: keyed_updateExpense keyed_deleteExpense keyed_addExpense addExpense_def
    keyed_loadExpenses keyed_syncExpenses delete_expense_distinct post_expenses_distinct
    post_expenses_duplicate)

text \<open>
  On the example stores: the local operations on the client's store; an update and a
  delete on the service that holds the coffee once, and a create of record 5 there.
\<close>

theorem ids_unique_preserved_witness:
  "keyed (db phone) \<and>
   keyed (updateExpense party (db phone)) \<and>
   keyed (deleteExpense ''2'' (db phone)) \<and>
   addExpense party (db phone) = Inr [coffee_local, bus, rent, party] \<and>
   keyed [coffee_local, bus, rent, party] \<and>
   addExpense coffee_local (db phone) = Inl ConstraintError \<and>
   keyed (db (loadExpenses True (Some [coffee_remote]) phone)) \<and>
   keyed (db (client_after (syncExpenses True reachable (Some [coffee_remote]) phone))) \<and>
   distinct (map id' (expenses one_coffee)) \<and>
   distinct (map id' (expenses (snd (delete_expense one_coffee ''1'')))) \<and>
   destructure (coffee_body(''id'' \<mapsto> JStr ''5'')) ''id'' \<notin> set (map id' (expenses one_coffee)) \<and>
   distinct (map id' (expenses (snd (post_expenses one_coffee (coffee_body(''id'' \<mapsto> JStr ''5''))))))"
proof -
  have k: "keyed (db phone)"
    by (simp add: keyed_def example_defs)
  have a: "addExpense party (db phone) = Inr [coffee_local, bus, rent, party]"
    by (simp add: addExpense_def example_defs)
  have c: "id' coffee_local \<in> set (map id' (db phone))"
    by (simp add: example_defs)
  have u: "distinct (map id' (expenses one_coffee))"
    by (simp add: example_defs)
  have n: "destructure (coffee_body(''id'' \<mapsto> JStr ''5'')) ''id'' \<notin> set (map id' (expenses one_coffee))"
    by (simp add: destructure_def example_defs)
  note p = ids_unique_preserved
    [of "db phone" party "''2''" phone True "Some [coffee_remote]" reachable one_coffee "''1''"
      "coffee_body(''id'' \<mapsto> JStr ''5'')"]
  note q = ids_unique_preserved
    [of "db phone" coffee_local "''2''" phone True "Some [coffee_remote]" reachable one_coffee "''1''"
      "coffee_body(''id'' \<mapsto> JStr ''5'')"]
  have 1: "keyed (updateExpense party (db phone)) \<and> keyed (deleteExpense ''2'' (db phone)) \<and>
           keyed [coffee_local, bus, rent, party]"
    using p k a by blast
  have 2: "addExpense coffee_local (db phone) = Inl ConstraintError"
    using q k c by blast
  have 3: "keyed (db (loadExpenses True (Some [coffee_remote]) phone)) \<and>
           keyed (db (client_after (syncExpenses True reachable (Some [coffee_remote]) phone)))"
    using p k by blast
  have 4: "distinct (map id' (expenses (snd (delete_expense one_coffee ''1'')))) \<and>
           distinct (map id' (expenses (snd (post_expenses one_coffee (coffee_body(''id'' \<mapsto> JStr ''5''))))))"
    using p u n by blast
  show ?thesis
    using k a 1 2 3 4 u n by blast
qed

section \<open>The load/merge algorithm\<close>

lemma synced_withFlag: "synced (withFlag e) = True"
  by (simp add: withFlag_def expense.extend_def local_expense.fields_def)

lemma id_withFlag: "id' (withFlag e) = id' e"
  by (simp add: withFlag_def expense.extend_def)

lemma truncate_withFlag: "expense.truncate (withFlag e) = e"
  by (simp add: withFlag_def expense.extend_def expense.truncate_def)

lemma ids_withFlag: "map id' (map withFlag es) = map id' es"
  by (simp add: id_withFlag)

lemma loadExpenses_online:
  "expenses_state (loadExpenses True (Some r) c) =
     map withFlag r @ filter (\<lambda>le. \<not> synced le \<and> id' le \<notin> set (map id' r)) (getExpenses (db c))"
  unfolding loadExpenses_def Let_def ids_withFlag by (simp add: conj_commute)

text \<open>
  C2. When the client is online and the fetch delivers the remote list, the working
  set is the remote list, each record with \<^verbatim>\<open>synced\<close> set to true and otherwise as
  it came, followed by the records of the local store that are not synced and whose id
  is the id of no remote record, in the order of the store.
\<close>

theorem loadExpenses_online_working_set:
  "expenses_state (loadExpenses True (Some serverExpenses) c) =
     map withFlag serverExpenses @
     filter (\<lambda>le. \<not> synced le \<and> id' le \<notin> set (map id' serverExpenses)) (getExpenses (db c)) \<and>
   list_all synced (map withFlag serverExpenses) \<and>
   map expense.truncate (map withFlag serverExpenses) = serverExpenses"
proof -
  have "expenses_state (loadExpenses True (Some serverExpenses) c) =
     map withFlag serverExpenses @
     filter (\<lambda>le. \<not> synced le \<and> id' le \<notin> set (map id' serverExpenses)) (getExpenses (db c))"
    by (rule loadExpenses_online)
  moreover have "list_all synced (map withFlag serverExpenses)"
    by (simp add: list_all_iff synced_withFlag)
  moreover have "map expense.truncate (map withFlag serverExpenses) = serverExpenses"
    by (simp add: comp_def truncate_withFlag)
  ultimately show ?thesis by simp
qed

text \<open>
  On the example client: the remote coffee replaces the local, edited one, and the
  pending bus ticket follows; the rent, synced and unknown to the service, is dropped.
\<close>

theorem loadExpenses_online_working_set_witness:
  "expenses_state (loadExpenses True (Some [coffee_remote]) phone) = [withFlag coffee_remote, bus]"
proof -
  have "filter (\<lambda>le. \<not> synced le \<and> id' le \<notin> set (map id' [coffee_remote])) (getExpenses (db phone)) = [bus]"
    by (simp add: getExpenses_def example_defs)
  then show ?thesis
    using loadExpenses_online_working_set [of "[coffee_remote]" phone] by simp
qed

lemma filter_updateExpense:
  assumes "\<not> P e" and "\<And>x. id' x = id' e \<Longrightarrow> \<not> P x"
  shows "filter P (updateExpense e d) = filter P d"
proof -
  have "filter P (updateExpense e d) = filter P (filter (\<lambda>x. id' x \<noteq> id' e) d)"
    using assms(1) by (simp add: updateExpense_def filter_insort_triv)
  also have "\<dots> = filter P d"
    using assms(2) by (auto intro: filter_cong)
  finally show ?thesis .
qed

lemma filter_foldl_updateExpense:
  assumes "\<And>e x. e \<in> set es \<Longrightarrow> id' x = id' e \<Longrightarrow> \<not> P x"
  shows "filter P (foldl (\<lambda>d e. updateExpense e d) d es) = filter P d"
  using assms
proof (induction es arbitrary: d)
  case Nil
  then show ?case by simp
next
  case (Cons e es)
  have "filter P (foldl (\<lambda>d e. updateExpense e d) (updateExpense e d) es) =
        filter P (updateExpense e d)"
    using Cons.prems by (intro Cons.IH) auto
  also have "\<dots> = filter P d"
    using Cons.prems by (intro filter_updateExpense) auto
  finally show ?case by simp
qed

text \<open>
  The write-back of the remote records leaves the pending records that are shown as
  they were: it only touches records whose id is remote.
\<close>

lemma pending_after_load:
  "filter (\<lambda>le. \<not> synced le \<and> id' le \<notin> set (map id' r)) (db (loadExpenses True (Some r) c)) =
   filter (\<lambda>le. \<not> synced le \<and> id' le \<notin> set (map id' r)) (db c)"
proof -
  have d: "db (loadExpenses True (Some r) c) =
           foldl (\<lambda>d e. updateExpense e d) (db c) (map withFlag r)"
    by (simp add: loadExpenses_def Let_def)
  show ?thesis
    unfolding d by (rule filter_foldl_updateExpense) (auto simp: id_withFlag)
qed

lemma loadExpenses_local_view:
  "\<not> isOnline \<or> fetched = None \<Longrightarrow>
   loadExpenses isOnline fetched c = c\<lparr>expenses_state := getExpenses (db c)\<rparr>"
  by (auto simp: loadExpenses_def)

text \<open>
  C1. Running \<^verbatim>\<open>loadExpenses\<close> twice in a row, in the same connectivity and with
  the same answer of the service, gives the second time the working set that it gave
  the first time. This holds online with any remote list and any local store, and also
  offline and when the fetch fails.
\<close>

theorem loadExpenses_idempotent:
  "expenses_state (loadExpenses isOnline fetched (loadExpenses isOnline fetched c)) =
   expenses_state (loadExpenses isOnline fetched c)"
proof (cases "isOnline \<and> fetched \<noteq> None")
  case True
  then obtain r where r: "isOnline = True" "fetched = Some r" by auto
  have "expenses_state (loadExpenses True (Some r) (loadExpenses True (Some r) c)) =
        expenses_state (loadExpenses True (Some r) c)"
    by (simp only: loadExpenses_online getExpenses_def pending_after_load)
  then show ?thesis by (simp only: r)
next
  case False
  then have "\<not> isOnline \<or> fetched = None" by simp
  then show ?thesis by (simp add: loadExpenses_local_view)
qed

text \<open>On the example client, the first and the second run show the same two records.\<close>

theorem loadExpenses_idempotent_witness:
  "expenses_state (loadExpenses True (Some [coffee_remote])
     (loadExpenses True (Some [coffee_remote]) phone)) = [withFlag coffee_remote, bus]"
proof -
  have "expenses_state (loadExpenses True (Some [coffee_remote]) phone) = [withFlag coffee_remote, bus]"
    by (simp add: loadExpenses_online getExpenses_def id_withFlag example_defs)
  then show ?thesis
    using loadExpenses_idempotent [of True "Some [coffee_remote]" phone] by simp
qed

section \<open>The push sweep\<close>

lemma synced_already: "synced e \<Longrightarrow> e\<lparr>synced := True\<rparr> = (e :: local_expense)"
  by (cases e) simp

lemma insort_key_between:
  assumes "sorted (map f (xs @ y # ys))" and "distinct (map f (xs @ y # ys))" and "f x = f y"
  shows "insort_key f x (xs @ ys) = xs @ x # ys"
  using assms
proof (induction xs)
  case Nil
  then show ?case by (cases ys) auto
next
  case (Cons a as)
  then have "f a \<le> f y" and "f a \<noteq> f y" by auto
  then have "\<not> f x \<le> f a" using Cons.prems(3) by auto
  moreover have "insort_key f x (as @ ys) = as @ x # ys"
    using Cons by auto
  ultimately show ?case by simp
qed

lemma filter_other_keys:
  assumes "distinct (map f (xs @ y # ys))"
  shows "filter (\<lambda>z. f z \<noteq> f y) (xs @ y # ys) = xs @ ys"
proof -
  have "f y \<notin> f ` (set xs \<union> set ys)"
    using assms by auto
  then have "\<And>z. z \<in> set xs \<union> set ys \<Longrightarrow> f z \<noteq> f y"
    by (metis imageI)
  then show ?thesis by (simp add: filter_id_conv)
qed

text \<open>In a keyed store, \<^verbatim>\<open>put\<close> of a record under a key that is there replaces it in place.\<close>

lemma updateExpense_in_place:
  assumes "keyed (xs @ y # ys)" and "id' x = id' y"
  shows "updateExpense x (xs @ y # ys) = xs @ x # ys"
proof -
  have "filter (\<lambda>z. id' z \<noteq> id' x) (xs @ y # ys) = xs @ ys"
    using assms filter_other_keys [of id' xs y ys] by (simp add: keyed_def)
  then show ?thesis
    using assms insort_key_between [of id' xs y ys x] by (simp add: updateExpense_def keyed_def)
qed

text \<open>
  The loop on the rest of the snapshot, when the records before it have been handled:
  first when every push resolves, then when the pushes resolve up to a record whose
  push rejects.
\<close>

lemma push_loop_resolved:
  assumes "keyed (pre @ rest)" and "\<forall>e \<in> set rest. \<not> synced e \<longrightarrow> net e = Resolved"
  shows "push_loop net rest (pre @ rest) posted =
           Inr (pre @ map (\<lambda>e. e\<lparr>synced := True\<rparr>) rest, posted @ filter (\<lambda>e. \<not> synced e) rest)"
  using assms
proof (induction rest arbitrary: pre posted)
  case Nil
  then show ?case by simp
next
  case (Cons e rest)
  have k: "keyed ((pre @ [e\<lparr>synced := True\<rparr>]) @ rest)"
    using Cons.prems(1) by (simp add: keyed_def)
  have r: "\<forall>x \<in> set rest. \<not> synced x \<longrightarrow> net x = Resolved"
    using Cons.prems(2) by simp
  note IH = Cons.IH [OF k r]
  show ?case
  proof (cases "synced e")
    case True
    then show ?thesis using IH [of posted] by (simp add: synced_already)
  next
    case False
    then have "net e = Resolved" using Cons.prems(2) by simp
    moreover have "updateExpense (e\<lparr>synced := True\<rparr>) (pre @ e # rest) = pre @ e\<lparr>synced := True\<rparr> # rest"
      using Cons.prems(1) by (intro updateExpense_in_place) simp_all
    ultimately show ?thesis
      using False IH [of "posted @ [e]"] by simp
  qed
qed

lemma push_loop_rejected:
  assumes "keyed (pre @ mid @ e # rest)" and "\<forall>x \<in> set mid. \<not> synced x \<longrightarrow> net x = Resolved"
    and "\<not> synced e" and "net e = Rejected"
  shows "push_loop net (mid @ e # rest) (pre @ mid @ e # rest) posted =
           Inl (pre @ map (\<lambda>x. x\<lparr>synced := True\<rparr>) mid @ e # rest,
                posted @ filter (\<lambda>x. \<not> synced x) mid @ [e])"
  using assms
proof (induction mid arbitrary: pre posted)
  case Nil
  then show ?case by simp
next
  case (Cons m mid)
  have k: "keyed ((pre @ [m\<lparr>synced := True\<rparr>]) @ mid @ e # rest)"
    using Cons.prems(1) by (simp add: keyed_def)
  have r: "\<forall>x \<in> set mid. \<not> synced x \<longrightarrow> net x = Resolved"
    using Cons.prems(2) by simp
  note IH = Cons.IH [OF k r Cons.prems(3,4)]
  show ?case
  proof (cases "synced m")
    case True
    then show ?thesis using IH [of posted] by (simp add: synced_already)
  next
    case False
    then have "net m = Resolved" using Cons.prems(2) by simp
    moreover have "updateExpense (m\<lparr>synced := True\<rparr>) (pre @ m # mid @ e # rest) =
                   pre @ m\<lparr>synced := True\<rparr> # mid @ e # rest"
      using Cons.prems(1) by (intro updateExpense_in_place) simp_all
    ultimately show ?thesis
      using False IH [of "posted @ [m]"] by simp
  qed
qed

text \<open>
  C3, as the claim states it, fails when a push rejects. On the example client the
  coffee and the bus ticket are pending; the push of the coffee rejects, the push of the
  bus ticket would resolve. No request is issued for the bus ticket, it stays
  unsynced in the store, and the load/merge algorithm is not run again.
\<close>

theorem sweep_stops_at_rejection_counterexample:
  "\<not> synced bus \<and> bus \<in> set (db phone) \<and> first_fails bus = Resolved \<and>
   bus \<notin> set (posts (syncExpenses True first_fails (Some [coffee_remote]) phone)) \<and>
   bus \<in> set (db (client_after (syncExpenses True first_fails (Some [coffee_remote]) phone))) \<and>
   \<not> reloaded (syncExpenses True first_fails (Some [coffee_remote]) phone)"
  by (simp add: syncExpenses_def getExpenses_def example_defs)

text \<open>
  C3, amended. The sweep visits the records of the local store in its order and
  issues, for each record that is not synced, a create request that carries the whole
  record. If every such request resolves, with whatever status, then a request has
  been issued for every unsynced record, every record is written back with
  \<^verbatim>\<open>synced\<close> true, and the load/merge algorithm is run on that store. If a request
  rejects, the sweep stops there: the unsynced records before it have been pushed and
  marked, the rejected request is the last one issued, the record and all later ones
  are as they were, and the load/merge algorithm is not run.
\<close>

theorem syncExpenses_sweep:
  assumes "keyed (db c)"
  shows "((\<forall>e \<in> set (db c). \<not> synced e \<longrightarrow> net e = Resolved) \<longrightarrow>
            posts (syncExpenses isOnline net fetched c) = filter (\<lambda>e. \<not> synced e) (db c) \<and>
            reloaded (syncExpenses isOnline net fetched c) \<and>
            client_after (syncExpenses isOnline net fetched c) =
              loadExpenses isOnline fetched (c\<lparr>db := map (\<lambda>e. e\<lparr>synced := True\<rparr>) (db c)\<rparr>)) \<and>
         (\<forall>mid e rest.
            db c = mid @ e # rest \<and> (\<forall>x \<in> set mid. \<not> synced x \<longrightarrow> net x = Resolved) \<and>
            \<not> synced e \<and> net e = Rejected \<longrightarrow>
            posts (syncExpenses isOnline net fetched c) = filter (\<lambda>x. \<not> synced x) mid @ [e] \<and>
            \<not> reloaded (syncExpenses isOnline net fetched c) \<and>
            client_after (syncExpenses isOnline net fetched c) =
              c\<lparr>db := map (\<lambda>x. x\<lparr>synced := True\<rparr>) mid @ e # rest\<rparr>)"
proof (intro conjI impI allI)
  assume r: "\<forall>e \<in> set (db c). \<not> synced e \<longrightarrow> net e = Resolved"
  have p: "push_loop net (db c) (db c) [] =
        Inr (map (\<lambda>e. e\<lparr>synced := True\<rparr>) (db c), filter (\<lambda>e. \<not> synced e) (db c))"
    using push_loop_resolved [of "[]" "db c" net "[]"] assms r by simp
  show "posts (syncExpenses isOnline net fetched c) = filter (\<lambda>e. \<not> synced e) (db c)"
    by (simp add: syncExpenses_def getExpenses_def p)
  show "reloaded (syncExpenses isOnline net fetched c)"
    by (simp add: syncExpenses_def getExpenses_def p)
  show "client_after (syncExpenses isOnline net fetched c) =
          loadExpenses isOnline fetched (c\<lparr>db := map (\<lambda>e. e\<lparr>synced := True\<rparr>) (db c)\<rparr>)"
    by (simp add: syncExpenses_def getExpenses_def p)
next
  fix mid e rest
  assume a: "db c = mid @ e # rest \<and> (\<forall>x \<in> set mid. \<not> synced x \<longrightarrow> net x = Resolved) \<and>
            \<not> synced e \<and> net e = Rejected"
  have p: "push_loop net (db c) (db c) [] =
        Inl (map (\<lambda>x. x\<lparr>synced := True\<rparr>) mid @ e # rest, filter (\<lambda>x. \<not> synced x) mid @ [e])"
    using push_loop_rejected [of "[]" mid e rest net "[]"] assms a by simp
  show "posts (syncExpenses isOnline net fetched c) = filter (\<lambda>x. \<not> synced x) mid @ [e]"
    by (simp add: syncExpenses_def getExpenses_def p)
  show "\<not> reloaded (syncExpenses isOnline net fetched c)"
    by (simp add: syncExpenses_def getExpenses_def p)
  show "client_after (syncExpenses isOnline net fetched c) =
              c\<lparr>db := map (\<lambda>x. x\<lparr>synced := True\<rparr>) mid @ e # rest\<rparr>"
    by (simp add: syncExpenses_def getExpenses_def p)
qed

text \<open>
  On the example client: with every push resolving, the coffee and the bus ticket are
  posted and the reload runs; with the push of the bus ticket rejecting (after the
  coffee has been pushed and marked), the sweep ends there without a reload.
\<close>

theorem syncExpenses_sweep_witness:
  "keyed (db phone) \<and>
   posts (syncExpenses True reachable (Some [coffee_remote]) phone) = [coffee_local, bus] \<and>
   reloaded (syncExpenses True reachable (Some [coffee_remote]) phone) \<and>
   client_after (syncExpenses True reachable (Some [coffee_remote]) phone) =
     loadExpenses True (Some [coffee_remote])
       (phone\<lparr>db := [coffee_local\<lparr>synced := True\<rparr>, bus\<lparr>synced := True\<rparr>, rent]\<rparr>) \<and>
   posts (syncExpenses True second_fails None phone) =
     [coffee_local, bus] \<and>
   \<not> reloaded (syncExpenses True second_fails None phone) \<and>
   client_after (syncExpenses True second_fails None phone) =
     phone\<lparr>db := [coffee_local\<lparr>synced := True\<rparr>, bus, rent]\<rparr>"
proof -
  have k: "keyed (db phone)"
    by (simp add: keyed_def example_defs)
  have r: "\<forall>e \<in> set (db phone). \<not> synced e \<longrightarrow> reachable e = Resolved"
    by (simp add: reachable_def)
  have d: "db phone = [coffee_local] @ bus # [rent]"
    by (simp add: phone_def)
  have m: "\<forall>x \<in> set [coffee_local]. \<not> synced x \<longrightarrow>
             second_fails x = Resolved"
    by (simp add: coffee_local_def second_fails_def)
  have b: "\<not> synced bus \<and> second_fails bus = Rejected"
    by (simp add: bus_def second_fails_def)
  have f: "filter (\<lambda>e. \<not> synced e) (db phone) = [coffee_local, bus]"
    by (simp add: example_defs)
  have s: "map (\<lambda>e. e\<lparr>synced := True\<rparr>) (db phone) =
           [coffee_local\<lparr>synced := True\<rparr>, bus\<lparr>synced := True\<rparr>, rent]"
    by (simp add: example_defs)
  note all = syncExpenses_sweep [OF k, of reachable True "Some [coffee_remote]", THEN conjunct1,
      THEN mp, OF r]
  note one = syncExpenses_sweep [OF k, of second_fails True None,
      THEN conjunct2, THEN spec [of _ "[coffee_local]"], THEN spec [of _ bus],
      THEN spec [of _ "[rent]"], THEN mp]
  have 1: "posts (syncExpenses True reachable (Some [coffee_remote]) phone) = [coffee_local, bus] \<and>
   reloaded (syncExpenses True reachable (Some [coffee_remote]) phone) \<and>
   client_after (syncExpenses True reachable (Some [coffee_remote]) phone) =
     loadExpenses True (Some [coffee_remote])
       (phone\<lparr>db := [coffee_local\<lparr>synced := True\<rparr>, bus\<lparr>synced := True\<rparr>, rent]\<rparr>)"
    using all by (simp only: f s)
  have 2: "posts (syncExpenses True second_fails None phone) =
     [coffee_local, bus] \<and>
   \<not> reloaded (syncExpenses True second_fails None phone) \<and>
   client_after (syncExpenses True second_fails None phone) =
     phone\<lparr>db := [coffee_local\<lparr>synced := True\<rparr>, bus, rent]\<rparr>"
    using one d m b by (simp add: coffee_local_def)
  show ?thesis
    using k 1 2 by blast
qed

section \<open>Deleting a record\<close>

lemma filter_splice1_found:
  "findIndex p xs = Some k \<Longrightarrow> filter p (splice1 k xs) = tl (filter p xs)"
proof (induction xs arbitrary: k)
  case Nil
  then show ?case by simp
next
  case (Cons x xs)
  show ?case
  proof (cases "p x")
    case True
    then show ?thesis using Cons.prems by (simp add: splice1_def)
  next
    case False
    then obtain j where j: "findIndex p xs = Some j" "k = Suc j"
      using Cons.prems by (auto split: option.splits)
    then show ?thesis using False Cons.IH [of j] by (simp add: splice1_def)
  qed
qed

text \<open>\<^verbatim>\<open>DELETE /expenses/:id\<close> removes the first record with the id, and only that one.\<close>

lemma delete_expense_remaining:
  "filter (\<lambda>e. id' e = JStr i) (expenses (snd (delete_expense s i))) =
   tl (filter (\<lambda>e. id' e = JStr i) (expenses s))"
proof (cases "findIndex (\<lambda>e. id' e = JStr i) (expenses s)")
  case None
  then have "filter (\<lambda>e. id' e = JStr i) (expenses s) = []"
    by (simp add: findIndex_None_iff filter_empty_conv list_ex_iff)
  then show ?thesis using None by (simp add: delete_expense_def)
next
  case (Some k)
  then show ?thesis
    by (simp add: delete_expense_def Let_def saveToDisk_def filter_splice1_found)
qed

lemma no_record_left:
  assumes "length (filter p xs) \<le> 1"
  shows "\<not> list_ex p (tl (filter p xs))"
proof -
  have "tl (filter p xs) = []"
    using assms by (cases "filter p xs") simp_all
  then show ?thesis by simp
qed

text \<open>
  When the delete request rejects, the handler is left by the exception with the local
  store, the working set and the service as they were.
\<close>

lemma handleDelete_rejected:
  "handleDelete True Rejected i w = Inl (w\<lparr>sent := sent w @ [DELETE i]\<rparr>)"
  by (simp add: handleDelete_def fetch_DELETE_def Let_def)

text \<open>
  C5, as the claim states it, fails twice while online. With a service that holds
  two records with the id 1, the delete resolves and a record with the id 1 is
  still held remotely afterwards. And when the delete request rejects, the handler
  is left by the exception before it reaches the local store, which still holds the
  record: the local removal is not unconditional.
\<close>

theorem delete_online_counterexample:
  "\<not> isl (handleDelete True Resolved ''1'' doubled) \<and>
   JStr ''1'' \<in> set (map id' (expenses (remote (projr (handleDelete True Resolved ''1'' doubled))))) \<and>
   isl (handleDelete True Rejected ''1'' tidy) \<and>
   ''1'' \<in> set (map id' (db (app (projl (handleDelete True Rejected ''1'' tidy)))))"
  by (simp add: handleDelete_def fetch_DELETE_def delete_expense_def saveToDisk_def splice1_def
      Let_def example_defs)

text \<open>
  C5, amended. Online, when the delete request resolves, the handler has sent that
  one request, the local store and the working set hold no record with the id, and
  the service has removed the first of its records with the id, so that none is left
  when it held at most one. Offline, the handler sends nothing, the service is as it
  was (a record it held is still there), and the local store and the working set hold
  no record with the id.
\<close>

theorem handleDelete_stores:
  "(\<exists>w'. handleDelete True Resolved i w = Inr w' \<and>
       sent w' = sent w @ [DELETE i] \<and>
       \<not> list_ex (\<lambda>e. id' e = i) (db (app w')) \<and>
       \<not> list_ex (\<lambda>e. id' e = i) (expenses_state (app w')) \<and>
       filter (\<lambda>e. id' e = JStr i) (expenses (remote w')) =
         tl (filter (\<lambda>e. id' e = JStr i) (expenses (remote w))) \<and>
       (length (filter (\<lambda>e. id' e = JStr i) (expenses (remote w))) \<le> 1 \<longrightarrow>
          \<not> list_ex (\<lambda>e. id' e = JStr i) (expenses (remote w')))) \<and>
   (\<exists>w'. handleDelete False net i w = Inr w' \<and>
       sent w' = sent w \<and> remote w' = remote w \<and>
       \<not> list_ex (\<lambda>e. id' e = i) (db (app w')) \<and>
       \<not> list_ex (\<lambda>e. id' e = i) (expenses_state (app w')))"
proof (intro conjI)
  let ?w = "w\<lparr>sent := sent w @ [DELETE i], remote := snd (delete_expense (remote w) i),
               app := \<lparr>db = deleteExpense i (db (app w)),
                       expenses_state = filter (\<lambda>e. id' e \<noteq> i) (expenses_state (app w))\<rparr>\<rparr>"
  have h: "handleDelete True Resolved i w = Inr ?w"
    by (simp add: handleDelete_def fetch_DELETE_def Let_def)
  have r: "filter (\<lambda>e. id' e = JStr i) (expenses (remote ?w)) =
           tl (filter (\<lambda>e. id' e = JStr i) (expenses (remote w)))"
    by (simp add: delete_expense_remaining)
  have n: "length (filter (\<lambda>e. id' e = JStr i) (expenses (remote w))) \<le> 1 \<longrightarrow>
           \<not> list_ex (\<lambda>e. id' e = JStr i) (expenses (remote ?w))"
  proof
    assume "length (filter (\<lambda>e. id' e = JStr i) (expenses (remote w))) \<le> 1"
    then have "\<not> list_ex (\<lambda>e. id' e = JStr i) (filter (\<lambda>e. id' e = JStr i) (expenses (remote ?w)))"
      unfolding r by (rule no_record_left)
    then show "\<not> list_ex (\<lambda>e. id' e = JStr i) (expenses (remote ?w))"
      by (simp add: list_ex_iff)
  qed
  have l: "\<not> list_ex (\<lambda>e. id' e = i) (db (app ?w)) \<and>
           \<not> list_ex (\<lambda>e. id' e = i) (expenses_state (app ?w))"
    by (simp add: deleteExpense_def list_ex_iff)
  show "\<exists>w'. handleDelete True Resolved i w = Inr w' \<and>
       sent w' = sent w @ [DELETE i] \<and>
       \<not> list_ex (\<lambda>e. id' e = i) (db (app w')) \<and>
       \<not> list_ex (\<lambda>e. id' e = i) (expenses_state (app w')) \<and>
       filter (\<lambda>e. id' e = JStr i) (expenses (remote w')) =
         tl (filter (\<lambda>e. id' e = JStr i) (expenses (remote w))) \<and>
       (length (filter (\<lambda>e. id' e = JStr i) (expenses (remote w))) \<le> 1 \<longrightarrow>
          \<not> list_ex (\<lambda>e. id' e = JStr i) (expenses (remote w')))"
    using h r n l by (intro exI [of _ ?w]) simp
next
  show "\<exists>w'. handleDelete False net i w = Inr w' \<and>
       sent w' = sent w \<and> remote w' = remote w \<and>
       \<not> list_ex (\<lambda>e. id' e = i) (db (app w')) \<and>
       \<not> list_ex (\<lambda>e. id' e = i) (expenses_state (app w'))"
    by (simp add: handleDelete_def deleteExpense_def list_ex_iff)
qed

text \<open>
  On the client whose service holds the coffee once: deleted online, the coffee is in
  neither store; deleted offline, it is still on the service.
\<close>

theorem handleDelete_stores_witness:
  "length (filter (\<lambda>e. id' e = JStr ''1'') (expenses (remote tidy))) \<le> 1 \<and>
   \<not> isl (handleDelete True Resolved ''1'' tidy) \<and>
   \<not> list_ex (\<lambda>e. id' e = ''1'') (db (app (projr (handleDelete True Resolved ''1'' tidy)))) \<and>
   \<not> list_ex (\<lambda>e. id' e = JStr ''1'') (expenses (remote (projr (handleDelete True Resolved ''1'' tidy)))) \<and>
   \<not> isl (handleDelete False Rejected ''1'' tidy) \<and>
   \<not> list_ex (\<lambda>e. id' e = ''1'') (db (app (projr (handleDelete False Rejected ''1'' tidy)))) \<and>
   sent (projr (handleDelete False Rejected ''1'' tidy)) = [] \<and>
   expenses (remote (projr (handleDelete False Rejected ''1'' tidy))) = [coffee]"
proof -
  have u: "length (filter (\<lambda>e. id' e = JStr ''1'') (expenses (remote tidy))) \<le> 1"
    by (simp add: example_defs)
  have t: "sent tidy = [] \<and> expenses (remote tidy) = [coffee]"
    by (simp add: tidy_def one_coffee_def)
  note d = handleDelete_stores [of "''1''" tidy Rejected]
  have 1: "\<not> isl (handleDelete True Resolved ''1'' tidy) \<and>
   \<not> list_ex (\<lambda>e. id' e = ''1'') (db (app (projr (handleDelete True Resolved ''1'' tidy)))) \<and>
   \<not> list_ex (\<lambda>e. id' e = JStr ''1'') (expenses (remote (projr (handleDelete True Resolved ''1'' tidy))))"
    using d u by auto
  have 2: "\<not> isl (handleDelete False Rejected ''1'' tidy) \<and>
   \<not> list_ex (\<lambda>e. id' e = ''1'') (db (app (projr (handleDelete False Rejected ''1'' tidy)))) \<and>
   sent (projr (handleDelete False Rejected ''1'' tidy)) = [] \<and>
   expenses (remote (projr (handleDelete False Rejected ''1'' tidy))) = [coffee]"
    using d t by auto
  show ?thesis
    using u 1 2 by blast
qed

section \<open>The summaries\<close>

lemma foldl_amounts:
  "foldl (\<lambda>sum e. sum + amount e) a es = a + sum_list (map amount (es :: local_expense list))"
  by (induction es arbitrary: a) simp_all

lemma date_ge_Some: "date_ge x (Some lo) = (case x of None \<Rightarrow> False | Some t \<Rightarrow> lo \<le> t)"
  by (cases x) simp_all

lemma date_ge_None: "date_ge x None = False"
  by (cases x) simp_all

lemma getSummary_since:
  "period_start D now period = Some lo \<Longrightarrow>
   getSummary D now es period = total (filter (dated_since D lo) es)"
  by (simp add: getSummary_def foldl_amounts total_def dated_since_def [abs_def] date_ge_Some)

text \<open>A period that is none of the three has no start, no record passes, and the sum is 0.\<close>

lemma getSummary_other:
  "period_start D now period = None \<Longrightarrow> getSummary D now es period = 0"
  by (simp add: getSummary_def date_ge_None)

lemma getSummary_today:
  "getSummary D now es ''today'' =
     total (filter (dated_since D (newDate D (getFullYear D now) (getMonth D now) (getDate D now))) es)"
  by (rule getSummary_since) (simp add: period_start_def)

lemma getSummary_week:
  "getSummary D now es ''week'' = total (filter (dated_since D (now - 7 * 24 * 60 * 60 * 1000)) es)"
  by (rule getSummary_since) (simp add: period_start_def)

lemma getSummary_month:
  "getSummary D now es ''month'' =
     total (filter (dated_since D (newDate D (getFullYear D now) (getMonth D now) 1)) es)"
  by (rule getSummary_since) (simp add: period_start_def)

lemma total_filter_mono:
  assumes "\<forall>e \<in> set es. 0 \<le> amount e" and "\<And>e. P e \<Longrightarrow> Q e"
  shows "total (filter P es) \<le> total (filter Q es)"
  using assms by (induction es) (auto simp: total_def)

lemma dated_since_mono: "lo \<le> hi \<Longrightarrow> dated_since D hi e \<Longrightarrow> dated_since D lo e"
  by (auto simp: dated_since_def split: option.splits)

text \<open>Noon of 2024-01-15 and the dates of the example records, on the UTC platform.\<close>

lemma utc_start_of_day:
  "newDate utc (getFullYear utc noon) (getMonth utc noon) (getDate utc noon) = 1705276800000"
  by code_simp

lemma utc_start_of_month:
  "newDate utc (getFullYear utc noon) (getMonth utc noon) 1 = 1704067200000"
  by code_simp

lemma parsed_examples:
  "parseDate utc (date coffee_local) = Some 1705276800000 \<and>
   parseDate utc (date bus) = Some 1704844800000 \<and>
   parseDate utc (date rent) = Some 1704153600000 \<and>
   parseDate utc (date party) = Some 1705708800000"
  by code_simp

lemma example_amounts:
  "amount coffee_local = 13 \<and> amount bus = 3 \<and> amount rent = 500 \<and> amount party = 30"
  by (simp add: coffee_local_def bus_def rent_def party_def)

lemma local_midnight_examples:
  "local_midnight utc (date coffee_local) = Some 1705276800000 \<and>
   local_midnight utc (date bus) = Some 1704844800000 \<and>
   local_midnight utc (date rent) = Some 1704153600000 \<and>
   local_midnight utc (date party) = Some 1705708800000"
  by code_simp

text \<open>
  In UTC the parser puts every date where it starts on the local clock; there the
  filter of \<^verbatim>\<open>getSummary\<close> is the window of the specification without its end.
\<close>

lemma parse_date_only_calendar:
  "parse_date_only s =
     (case calendar_date s of None \<Rightarrow> None
      | Some (y, m, d) \<Rightarrow> Some (days_from_civil y m d * ms_per_day))"
  by (simp add: parse_date_only_def calendar_date_def split: option.splits)

lemma utc_reads_local_midnight: "parseDate utc s = local_midnight utc s"
  by (simp add: utc_def local_midnight_def parse_date_only_calendar split: option.splits)

lemma dated_since_falls_since:
  "parseDate D (date e) = local_midnight D (date e) \<Longrightarrow> dated_since D lo e = falls_since D lo e"
  by (simp add: dated_since_def falls_since_def)

lemma filter_falls_since:
  assumes "\<forall>e \<in> set es. parseDate D (date e) = local_midnight D (date e)"
  shows "filter (dated_since D lo) es = filter (falls_since D lo) es"
  using assms by (intro filter_cong) (simp_all add: dated_since_falls_since)

text \<open>
  Five hours west of UTC the parser puts a date five hours before it starts on the
  local clock. At local noon of 2024-01-15 the coffee of that day falls within
  ``today'', and \<^verbatim>\<open>getSummary('today')\<close> leaves it out.
\<close>

lemma today_missed_west_of_utc:
  "newDate five_west (getFullYear five_west noon_west) (getMonth five_west noon_west)
     (getDate five_west noon_west) = 1705294800000 \<and>
   local_midnight five_west (date coffee_local) = Some 1705294800000 \<and>
   parseDate five_west (date coffee_local) = Some 1705276800000 \<and>
   total (filter (falls_within five_west 1705294800000 noon_west) [coffee_local]) = 13 \<and>
   getSummary five_west noon_west [coffee_local] ''today'' = 0"
proof -
  have 1: "newDate five_west (getFullYear five_west noon_west) (getMonth five_west noon_west)
     (getDate five_west noon_west) = 1705294800000"
    by code_simp
  have 2: "local_midnight five_west (date coffee_local) = Some 1705294800000"
    by code_simp
  have 3: "parseDate five_west (date coffee_local) = Some 1705276800000"
    by code_simp
  have 4: "total (filter (falls_within five_west 1705294800000 noon_west) [coffee_local]) = 13"
    by (simp add: total_def falls_within_def 2 noon_west_def example_amounts)
  have 5: "getSummary five_west noon_west [coffee_local] ''today'' = 0"
    by (simp add: getSummary_today 1 dated_since_def 3 total_def)
  show ?thesis
    using 1 2 3 4 5 by blast
qed

text \<open>
  C8, as the claim states it, fails on a record dated after now. At noon of
  2024-01-15, in UTC, the party of 2024-01-20 is outside the window from the start of
  the day through now, whose total is 0; \<^verbatim>\<open>getSummary('today')\<close> counts it and
  gives 30.
\<close>

theorem future_record_counted_counterexample:
  "period_start utc noon ''today'' = Some 1705276800000 \<and>
   local_midnight utc (date party) = Some 1705708800000 \<and>
   noon < 1705708800000 \<and>
   total (filter (falls_within utc 1705276800000 noon) [party]) = 0 \<and>
   getSummary utc noon [party] ''today'' = 30"
proof -
  have 1: "period_start utc noon ''today'' = Some 1705276800000"
    by (simp add: period_start_def utc_start_of_day)
  have 2: "local_midnight utc (date party) = Some 1705708800000"
    by (simp add: local_midnight_examples)
  have 3: "noon < 1705708800000"
    by (simp add: noon_def)
  have 4: "total (filter (falls_within utc 1705276800000 noon) [party]) = 0"
    by (simp add: total_def falls_within_def 2 noon_def)
  have 5: "getSummary utc noon [party] ''today'' = 30"
    by (simp add: getSummary_def 1 parsed_examples example_amounts)
  show ?thesis
    using 1 2 3 4 5 by blast
qed

text \<open>
  C8, amended. Where the platform puts the date of every record of the working set at
  the start of that date on the local clock, as it does in UTC,
  \<^verbatim>\<open>getSummary\<close> sums the amounts of exactly the records whose date falls at or
  after the start of the chosen window: the start of the local day for ``today'',
  seven times 24 hours before now for ``week'', the start of the local month for
  ``month''. The window has no end, so a record dated after now is inside it. When
  no record of the working set is dated after now, these are the records whose date
  falls within the window from the start through now.
\<close>

theorem getSummary_windows:
  assumes "\<forall>e \<in> set es. parseDate D (date e) = local_midnight D (date e)"
  shows
  "getSummary D now es ''today'' =
     total (filter (falls_since D (newDate D (getFullYear D now) (getMonth D now) (getDate D now))) es) \<and>
   getSummary D now es ''week'' =
     total (filter (falls_since D (now - 7 * 24 * 60 * 60 * 1000)) es) \<and>
   getSummary D now es ''month'' =
     total (filter (falls_since D (newDate D (getFullYear D now) (getMonth D now) 1)) es) \<and>
   ((\<forall>e \<in> set es. \<not> falls_since D (now + 1) e) \<longrightarrow>
      (\<forall>lo. filter (falls_since D lo) es = filter (falls_within D lo now) es))"
proof (intro conjI impI allI)
  show "getSummary D now es ''today'' =
     total (filter (falls_since D (newDate D (getFullYear D now) (getMonth D now) (getDate D now))) es)"
    by (simp only: getSummary_today filter_falls_since [OF assms])
  show "getSummary D now es ''week'' = total (filter (falls_since D (now - 7 * 24 * 60 * 60 * 1000)) es)"
    by (simp only: getSummary_week filter_falls_since [OF assms])
  show "getSummary D now es ''month'' =
     total (filter (falls_since D (newDate D (getFullYear D now) (getMonth D now) 1)) es)"
    by (simp only: getSummary_month filter_falls_since [OF assms])
next
  fix lo
  assume "\<forall>e \<in> set es. \<not> falls_since D (now + 1) e"
  then show "filter (falls_since D lo) es = filter (falls_within D lo now) es"
    by (intro filter_cong) (auto simp: falls_since_def falls_within_def split: option.splits)
qed

text \<open>
  At noon of 2024-01-15 in UTC, with the coffee of that day, the bus ticket of
  2024-01-10 and the rent of 2024-01-02, none of them dated after now.
\<close>

theorem getSummary_windows_witness:
  "list_all (\<lambda>e. parseDate utc (date e) = local_midnight utc (date e)) [coffee_local, bus, rent] \<and>
   list_all (\<lambda>e. \<not> falls_since utc (noon + 1) e) [coffee_local, bus, rent] \<and>
   getSummary utc noon [coffee_local, bus, rent] ''today'' =
     total (filter (falls_within utc 1705276800000 noon) [coffee_local, bus, rent]) \<and>
   getSummary utc noon [coffee_local, bus, rent] ''today'' = 13 \<and>
   getSummary utc noon [coffee_local, bus, rent] ''week'' = 16 \<and>
   getSummary utc noon [coffee_local, bus, rent] ''month'' = 516"
proof -
  note p = local_midnight_examples
  have c: "\<forall>e \<in> set [coffee_local, bus, rent]. parseDate utc (date e) = local_midnight utc (date e)"
    by (simp add: utc_reads_local_midnight)
  have n: "\<forall>e \<in> set [coffee_local, bus, rent]. \<not> falls_since utc (noon + 1) e"
    by (simp add: falls_since_def p noon_def)
  note w = getSummary_windows [OF c, of noon]
  have e: "filter (falls_since utc 1705276800000) [coffee_local, bus, rent] =
           filter (falls_within utc 1705276800000 noon) [coffee_local, bus, rent]"
    using w n by blast
  have t: "getSummary utc noon [coffee_local, bus, rent] ''today'' =
           total (filter (falls_since utc 1705276800000) [coffee_local, bus, rent])"
    using w by (simp only: utc_start_of_day)
  have 1: "getSummary utc noon [coffee_local, bus, rent] ''today'' =
     total (filter (falls_within utc 1705276800000 noon) [coffee_local, bus, rent])"
    using t e by simp
  have 2: "getSummary utc noon [coffee_local, bus, rent] ''today'' = 13"
    using t by (simp add: falls_since_def p total_def example_amounts)
  have k: "getSummary utc noon [coffee_local, bus, rent] ''week'' =
           total (filter (falls_since utc (noon - 7 * 24 * 60 * 60 * 1000)) [coffee_local, bus, rent])"
    using w by blast
  have 3: "getSummary utc noon [coffee_local, bus, rent] ''week'' = 16"
    unfolding k by (simp add: falls_since_def p total_def example_amounts noon_def)
  have m: "getSummary utc noon [coffee_local, bus, rent] ''month'' =
           total (filter (falls_since utc 1704067200000) [coffee_local, bus, rent])"
    using w by (simp only: utc_start_of_month)
  have 4: "getSummary utc noon [coffee_local, bus, rent] ''month'' = 516"
    unfolding m by (simp add: falls_since_def p total_def example_amounts)
  have l: "list_all (\<lambda>e. parseDate utc (date e) = local_midnight utc (date e)) [coffee_local, bus, rent] \<and>
           list_all (\<lambda>e. \<not> falls_since utc (noon + 1) e) [coffee_local, bus, rent]"
    using c n by (simp add: list_all_iff)
  show ?thesis
    using l 1 2 3 4 by blast
qed

text \<open>
  C9. When no amount of the working set is negative and the windows nest (the start
  of the local month is not after now minus seven days, which is not after the start
  of the local day), the total for ``today'' is at most the total for ``week'', which
  is at most the total for ``month''.
\<close>

theorem getSummary_monotone:
  assumes "\<forall>e \<in> set es. 0 \<le> amount e"
    and "newDate D (getFullYear D now) (getMonth D now) 1 \<le> now - 7 * 24 * 60 * 60 * 1000"
    and "now - 7 * 24 * 60 * 60 * 1000 \<le> newDate D (getFullYear D now) (getMonth D now) (getDate D now)"
  shows "getSummary D now es ''today'' \<le> getSummary D now es ''week'' \<and>
         getSummary D now es ''week'' \<le> getSummary D now es ''month''"
  unfolding getSummary_today getSummary_week getSummary_month
  using assms(1) dated_since_mono [OF assms(2)] dated_since_mono [OF assms(3)]
  by (intro conjI total_filter_mono) auto

text \<open>
  At noon of 2024-01-15 in UTC the windows nest; with the party of 2024-01-20 in the
  working set as well the three totals are 43, 46 and 546.
\<close>

theorem getSummary_monotone_witness:
  "list_all (\<lambda>e. 0 \<le> amount e) [coffee_local, bus, rent, party] \<and>
   newDate utc (getFullYear utc noon) (getMonth utc noon) 1 \<le> noon - 7 * 24 * 60 * 60 * 1000 \<and>
   noon - 7 * 24 * 60 * 60 * 1000 \<le> newDate utc (getFullYear utc noon) (getMonth utc noon) (getDate utc noon) \<and>
   getSummary utc noon [coffee_local, bus, rent, party] ''today'' \<le>
     getSummary utc noon [coffee_local, bus, rent, party] ''week'' \<and>
   getSummary utc noon [coffee_local, bus, rent, party] ''week'' \<le>
     getSummary utc noon [coffee_local, bus, rent, party] ''month'' \<and>
   getSummary utc noon [coffee_local, bus, rent, party] ''today'' = 43 \<and>
   getSummary utc noon [coffee_local, bus, rent, party] ''month'' = 546"
proof -
  have a: "\<forall>e \<in> set [coffee_local, bus, rent, party]. 0 \<le> amount e"
    by (simp add: example_amounts)
  have m: "newDate utc (getFullYear utc noon) (getMonth utc noon) 1 \<le> noon - 7 * 24 * 60 * 60 * 1000"
    by (simp only: utc_start_of_month) (simp add: noon_def)
  have d: "noon - 7 * 24 * 60 * 60 * 1000 \<le>
           newDate utc (getFullYear utc noon) (getMonth utc noon) (getDate utc noon)"
    by (simp only: utc_start_of_day) (simp add: noon_def)
  have t: "getSummary utc noon [coffee_local, bus, rent, party] ''today'' = 43"
    by (simp add: getSummary_today utc_start_of_day dated_since_def parsed_examples total_def
        example_amounts)
  have o: "getSummary utc noon [coffee_local, bus, rent, party] ''month'' = 546"
    by (simp add: getSummary_month utc_start_of_month dated_since_def parsed_examples total_def
        example_amounts)
  have l: "list_all (\<lambda>e. 0 \<le> amount e) [coffee_local, bus, rent, party]"
    using a by (simp add: list_all_iff)
  show ?thesis
    using l m d t o getSummary_monotone [OF a m d] by blast
qed

end
